theory Spec2Isabelle
  imports Main
begin

section \<open>The circuit breaker of the API gateway\<close>

text \<open>
  The gateway (\<^verbatim>\<open>api-gateway/server.js\<close>) keeps one breaker object per service
  name in \<^verbatim>\<open>this.circuitBreakers\<close>, a \<^verbatim>\<open>Map\<close>. A breaker is the object
  \<^verbatim>\<open>{ failures, isOpen, lastFailure }\<close>. \<^verbatim>\<open>lastFailure\<close> is \<^verbatim>\<open>null\<close> in a
  freshly created breaker and a \<^verbatim>\<open>Date.now()\<close> value (integer milliseconds)
  afterwards. Every reading of the clock is a parameter of the model.
\<close>

record breaker =
  failures :: nat
  isOpen :: bool
  lastFailure :: "int option"

type_synonym breakers = "string \<rightharpoonup> breaker"

text \<open>
  \<^verbatim>\<open>Date.now() - breaker.lastFailure\<close>: JavaScript converts \<^verbatim>\<open>null\<close> to \<^verbatim>\<open>0\<close> in a
  subtraction.
\<close>

definition elapsed :: "int \<Rightarrow> int option \<Rightarrow> int" where
  "elapsed now lf = now - (case lf of None \<Rightarrow> 0 | Some t \<Rightarrow> t)"

text \<open>
  \<^verbatim>\<open>breaker.failures++\<close> on a JavaScript number: exact below \<open>2^53\<close>, where the
  double no longer changes when one is added.
\<close>

definition js_incr :: "nat \<Rightarrow> nat" where
  "js_incr n = (if n < 9007199254740992 then n + 1 else n)"

text \<open>
  \<^verbatim>\<open>isCircuitOpen(serviceName)\<close>: returns the answer and the table, in which an
  open breaker whose timeout has passed has its flag cleared.
\<close>

definition isCircuitOpen :: "string \<Rightarrow> int \<Rightarrow> breakers \<Rightarrow> bool \<times> breakers" where
  "isCircuitOpen serviceName now cbs =
     (case cbs serviceName of
        None \<Rightarrow> (False, cbs)
      | Some b \<Rightarrow>
          if isOpen b \<and> elapsed now (lastFailure b) > 30000
          then (False, cbs(serviceName \<mapsto> b\<lparr>isOpen := False\<rparr>))
          else (isOpen b, cbs))"

definition recordFailure :: "string \<Rightarrow> int \<Rightarrow> breakers \<Rightarrow> breakers" where
  "recordFailure serviceName now cbs =
     (let b0 = (case cbs serviceName of
                  None \<Rightarrow> \<lparr>failures = 0, isOpen = False, lastFailure = None\<rparr>
                | Some b \<Rightarrow> b);
          b1 = b0\<lparr>failures := js_incr (failures b0), lastFailure := Some now\<rparr>;
          b2 = (if failures b1 \<ge> 3 then b1\<lparr>isOpen := True\<rparr> else b1)
      in cbs(serviceName \<mapsto> b2))"

definition resetCircuitBreaker :: "string \<Rightarrow> breakers \<Rightarrow> breakers" where
  "resetCircuitBreaker serviceName cbs =
     (case cbs serviceName of
        None \<Rightarrow> cbs
      | Some b \<Rightarrow> cbs(serviceName \<mapsto> b\<lparr>failures := 0, isOpen := False\<rparr>))"

text \<open>A run of breaker operations, each with the clock value it reads.\<close>

datatype breaker_op =
    IsCircuitOpen string int
  | RecordFailure string int
  | ResetCircuitBreaker string

fun apply_op :: "breaker_op \<Rightarrow> breakers \<Rightarrow> breakers" where
  "apply_op (IsCircuitOpen s now) cbs = snd (isCircuitOpen s now cbs)"
| "apply_op (RecordFailure s now) cbs = recordFailure s now cbs"
| "apply_op (ResetCircuitBreaker s) cbs = resetCircuitBreaker s cbs"

fun run_ops :: "breaker_op list \<Rightarrow> breakers \<Rightarrow> breakers" where
  "run_ops [] cbs = cbs"
| "run_ops (x # xs) cbs = run_ops xs (apply_op x cbs)"

text \<open>Successive \<^verbatim>\<open>isCircuitOpen\<close> checks of one target, with their answers.\<close>

fun checks :: "string \<Rightarrow> int list \<Rightarrow> breakers \<Rightarrow> bool list \<times> breakers" where
  "checks s [] cbs = ([], cbs)"
| "checks s (t # ts) cbs =
     (let (r, cbs1) = isCircuitOpen s t cbs;
          (rs, cbs2) = checks s ts cbs1
      in (r # rs, cbs2))"

text \<open>The table after three failures of one service at time 0, used in examples.\<close>

definition tripped :: "string \<Rightarrow> breakers" where
  "tripped name = recordFailure name 0 (recordFailure name 0 (recordFailure name 0 Map.empty))"

section \<open>Requests, replies and the handlers of the gateway\<close>

text \<open>
  JSON values as \<^verbatim>\<open>JSON.parse\<close> and \<^verbatim>\<open>express.json()\<close> deliver them. An object
  is its list of members (keys distinct after parsing). Text is held as UTF-8 bytes.
\<close>

datatype json =
    JNull
  | JBool bool
  | JNum int
  | JStr string
  | JArr "json list"
  | JObj "(string \<times> json) list"

datatype error =
    NotRegistered string
  | AxiosError "(nat \<times> json) option"
  | TypeError

text \<open>
  Reading the member \<^verbatim>\<open>message\<close> or \<^verbatim>\<open>data\<close> of a value: \<^verbatim>\<open>null.k\<close> throws a
  \<^verbatim>\<open>TypeError\<close>; an object gives the member or \<^verbatim>\<open>undefined\<close> (\<open>None\<close>); a
  string, number, boolean or array has no such member.
\<close>

definition get_prop :: "json \<Rightarrow> string \<Rightarrow> error + json option" where
  "get_prop v k =
     (case v of
        JNull \<Rightarrow> Inl TypeError
      | JObj kvs \<Rightarrow> Inr (map_of kvs k)
      | _ \<Rightarrow> Inr None)"

text \<open>
  An object literal as \<^verbatim>\<open>res.json\<close> sends it: a member whose value is
  \<^verbatim>\<open>undefined\<close> is left out by \<^verbatim>\<open>JSON.stringify\<close>.
\<close>

definition mk_obj :: "(string \<times> json option) list \<Rightarrow> json" where
  "mk_obj kvs = JObj (List.map_filter (\<lambda>(k, v). map_option (Pair k) v) kvs)"

text \<open>\<^verbatim>\<open>!h\<close> for a header or query value: \<^verbatim>\<open>undefined\<close> and the empty string are falsy.\<close>

definition truthy :: "string option \<Rightarrow> bool" where
  "truthy h = (case h of None \<Rightarrow> False | Some s \<Rightarrow> s \<noteq> [])"

text \<open>
  \<^verbatim>\<open>s.replace(pat, rep)\<close> with a string pattern replaces the first occurrence. The
  replacements used by the routes (\<^verbatim>\<open>/auth\<close>, \<^verbatim>\<open>/users\<close>, \<^verbatim>\<open>/items\<close>, \<^verbatim>\<open>/lists\<close>)
  contain no \<^verbatim>\<open>$\<close>, so they are inserted as they are.
\<close>

fun replace_first :: "string \<Rightarrow> string \<Rightarrow> string \<Rightarrow> string" where
  "replace_first pat rep [] = (if pat = [] then rep else [])"
| "replace_first pat rep (c # cs) =
     (if take (length pat) (c # cs) = pat then rep @ drop (length pat) (c # cs)
      else c # replace_first pat rep cs)"

text \<open>The request the gateway receives: the parts of \<^verbatim>\<open>req\<close> the handlers read.\<close>

record inbound =
  reqMethod :: string
  originalUrl :: string
  reqBody :: json
  authHeader :: "string option"
  queryQ :: "string option"

text \<open>The request handed to axios.\<close>

record outbound =
  httpMethod :: string
  url :: string
  payload :: "json option"
  authorization :: "string option"

text \<open>
  What becomes of a promise: it is fulfilled with a value, rejected with an error, or
  never settles. An \<^verbatim>\<open>await\<close> on a promise that never settles does not return, and
  the rest of the handler is not run.
\<close>

datatype 'a promise = Fulfilled 'a | Rejected error | Pending

text \<open>
  axios is a library outside the repository, so what its promise does for a request is
  a parameter: the field \<open>axios\<close> of the environment. The gateway passes no
  \<^verbatim>\<open>validateStatus\<close>, \<^verbatim>\<open>maxRedirects\<close> or \<^verbatim>\<open>timeout\<close>, and the handlers read no
  more than this of the outcome:
  \<^item> \<open>Fulfilled (st, d)\<close>: \<^verbatim>\<open>response.status\<close> and \<^verbatim>\<open>response.data\<close> of the reply
    axios resolves with (with the defaults, a final status in 200..299, redirects
    followed);
  \<^item> \<open>Rejected (AxiosError (Some (st, d)))\<close>: a rejection that carries
    \<^verbatim>\<open>error.response\<close>, with its \<^verbatim>\<open>status\<close> and \<^verbatim>\<open>data\<close> (with the defaults, a
    final status outside 200..299);
  \<^item> \<open>Rejected\<close> with any other error: a rejection without \<^verbatim>\<open>error.response\<close>
    (connection refused, reset, too many redirects);
  \<^item> \<open>Pending\<close>: the target accepts the connection and stays silent; with no
    \<^verbatim>\<open>timeout\<close> the promise never settles.
\<close>

record env =
  registry :: "string \<rightharpoonup> string"
  axios :: "outbound \<Rightarrow> (nat \<times> json) promise"

text \<open>
  Modelled from the spec: \<^verbatim>\<open>serviceRegistry.discover\<close> of
  \<^verbatim>\<open>shared/serviceRegistry.js\<close>, which is not among the sources. The spec:
  "\<^verbatim>\<open>discover(name) -> ServiceRecord\<close>. Fails with \<^verbatim>\<open>NotRegistered\<close> if \<^verbatim>\<open>name\<close> was
  never registered. Does not fail merely because status is \<^verbatim>\<open>unhealthy\<close>." The
  registry is the map from a registered name to the \<^verbatim>\<open>url\<close> of its record.
\<close>

definition discover :: "env \<Rightarrow> string \<Rightarrow> error + string" where
  "discover e name =
     (case registry e name of None \<Rightarrow> Inl (NotRegistered name) | Some u \<Rightarrow> Inr u)"

text \<open>
  The gateway object: the breaker table, and a trace of what it did towards the
  outside (registry lookups and outbound calls, each with the service it was for).
\<close>

datatype event = Discover string | Call string outbound

record gateway =
  circuitBreakers :: breakers
  trace :: "event list"

record response =
  status :: nat
  body :: json

definition failure_body :: "json option \<Rightarrow> json" where
  "failure_body message = mk_obj [(''success'', Some (JBool False)), (''message'', message)]"

definition msg_temporarily_unavailable :: "string \<Rightarrow> string" where
  "msg_temporarily_unavailable serviceName =
     ''Servi'' @ [CHR 0xC3, CHR 0xA7] @ ''o '' @ serviceName
       @ '' temporariamente indispon'' @ [CHR 0xC3, CHR 0xAD] @ ''vel''"

definition msg_unavailable :: "string \<Rightarrow> string" where
  "msg_unavailable serviceName =
     ''Servi'' @ [CHR 0xC3, CHR 0xA7] @ ''o '' @ serviceName
       @ '' indispon'' @ [CHR 0xC3, CHR 0xAD] @ ''vel''"

text \<open>
  \<^verbatim>\<open>proxyRequest\<close>, the part of the \<^verbatim>\<open>try\<close> block from \<^verbatim>\<open>discover\<close> to the
  \<^verbatim>\<open>await axios(...)\<close>: the block goes on with \<^verbatim>\<open>response\<close> (\<open>Fulfilled\<close>), an
  error is thrown (\<open>Rejected\<close>), or the \<^verbatim>\<open>await\<close> does not return (\<open>Pending\<close>).
\<close>

definition proxyAttempt ::
  "env \<Rightarrow> string \<Rightarrow> string \<Rightarrow> inbound \<Rightarrow> gateway \<Rightarrow> (nat \<times> json) promise \<times> gateway" where
  "proxyAttempt e serviceName serviceBasePath req gw =
     (let gw1 = gw\<lparr>trace := trace gw @ [Discover serviceName]\<rparr>
      in case discover e serviceName of
           Inl err \<Rightarrow> (Rejected err, gw1)
         | Inr u \<Rightarrow>
             (let targetPath =
                    replace_first (''/api'' @ serviceBasePath) serviceBasePath (originalUrl req);
                  out = \<lparr>httpMethod = reqMethod req, url = u @ targetPath,
                         payload = Some (reqBody req), authorization = authHeader req\<rparr>;
                  gw2 = gw1\<lparr>trace := trace gw1 @ [Call serviceName out]\<rparr>
              in (axios e out, gw2)))"

text \<open>
  \<^verbatim>\<open>proxyRequest(serviceName, serviceBasePath, req, res)\<close>. \<open>tCheck\<close> is the clock
  read by \<^verbatim>\<open>isCircuitOpen\<close>, \<open>tFail\<close> the one read by \<^verbatim>\<open>recordFailure\<close>. The
  result is the response sent, or \<open>None\<close> when nothing is sent: the axios promise
  never settles, or the \<^verbatim>\<open>catch\<close> block itself throws (\<^verbatim>\<open>error.response.data\<close> is
  \<^verbatim>\<open>null\<close>). The handler is
  taken to run with no other handler touching the breaker table while it waits for
  axios; the paths that reject or fail at discovery do not wait at all.
\<close>

definition proxyRequest ::
  "env \<Rightarrow> string \<Rightarrow> string \<Rightarrow> inbound \<Rightarrow> int \<Rightarrow> int \<Rightarrow> gateway \<Rightarrow> response option \<times> gateway" where
  "proxyRequest e serviceName serviceBasePath req tCheck tFail gw =
     (let (is_open, cbs) = isCircuitOpen serviceName tCheck (circuitBreakers gw);
          gw1 = gw\<lparr>circuitBreakers := cbs\<rparr>
      in if is_open
         then (Some \<lparr>status = 503,
                     body = failure_body (Some (JStr (msg_temporarily_unavailable serviceName)))\<rparr>,
               gw1)
         else
           (case proxyAttempt e serviceName serviceBasePath req gw1 of
              (Pending, gw2) \<Rightarrow> (None, gw2)
            | (Fulfilled (st, d), gw2) \<Rightarrow>
                (Some \<lparr>status = st, body = d\<rparr>,
                 gw2\<lparr>circuitBreakers := resetCircuitBreaker serviceName (circuitBreakers gw2)\<rparr>)
            | (Rejected err, gw2) \<Rightarrow>
                (let gw3 = gw2\<lparr>circuitBreakers :=
                                 recordFailure serviceName tFail (circuitBreakers gw2)\<rparr>
                 in case err of
                      AxiosError (Some (st, d)) \<Rightarrow>
                        (case get_prop d ''message'' of
                           Inl _ \<Rightarrow> (None, gw3)
                         | Inr m \<Rightarrow> (Some \<lparr>status = st, body = failure_body m\<rparr>, gw3))
                    | _ \<Rightarrow>
                        (Some \<lparr>status = 503,
                               body = failure_body (Some (JStr (msg_unavailable serviceName)))\<rparr>,
                         gw3))))"

text \<open>
  \<^verbatim>\<open>callService(serviceName, path, authHeader = null)\<close>: the promise it returns, fulfilled
  with \<^verbatim>\<open>response.data\<close>, rejected, or never settled.
\<close>

definition callService ::
  "env \<Rightarrow> string \<Rightarrow> string \<Rightarrow> string option \<Rightarrow> gateway \<Rightarrow> json promise \<times> gateway" where
  "callService e serviceName path auth gw =
     (let gw1 = gw\<lparr>trace := trace gw @ [Discover serviceName]\<rparr>
      in case discover e serviceName of
           Inl err \<Rightarrow> (Rejected err, gw1)
         | Inr u \<Rightarrow>
             (let out = \<lparr>httpMethod = ''GET'', url = u @ path, payload = None,
                         authorization = (if truthy auth then auth else None)\<rparr>;
                  gw2 = gw1\<lparr>trace := trace gw1 @ [Call serviceName out]\<rparr>
              in (case axios e out of
                    Pending \<Rightarrow> (Pending, gw2)
                  | Rejected err \<Rightarrow> (Rejected err, gw2)
                  | Fulfilled (st, d) \<Rightarrow> (Fulfilled d, gw2))))"

text \<open>
  \<^verbatim>\<open>await Promise.allSettled([p, q])\<close>: returns the two results once both promises
  have settled, and does not return (\<open>None\<close>) when one of them never does.
\<close>

definition settle :: "'a promise \<Rightarrow> (error + 'a) option" where
  "settle p =
     (case p of Pending \<Rightarrow> None | Rejected err \<Rightarrow> Some (Inl err)
      | Fulfilled v \<Rightarrow> Some (Inr v))"

definition allSettled :: "'a promise \<Rightarrow> 'a promise \<Rightarrow> ((error + 'a) \<times> (error + 'a)) option" where
  "allSettled p q =
     (case settle p of
        None \<Rightarrow> None
      | Some a \<Rightarrow> (case settle q of None \<Rightarrow> None | Some b \<Rightarrow> Some (a, b)))"

text \<open>
  One slot of the dashboard: \<^verbatim>\<open>r.status === 'fulfilled' ? r.value.data : []\<close>.
\<close>

definition settled_slot :: "error + json \<Rightarrow> error + json option" where
  "settled_slot r = (case r of Inl _ \<Rightarrow> Inr (Some (JArr [])) | Inr v \<Rightarrow> get_prop v ''data'')"

definition success_body :: "json \<Rightarrow> json" where
  "success_body d = mk_obj [(''success'', Some (JBool True)), (''data'', Some d)]"

text \<open>
  \<^verbatim>\<open>getDashboard(req, res)\<close>. Both \<^verbatim>\<open>callService\<close> calls are started, the
  list-service one first, and \<^verbatim>\<open>Promise.allSettled\<close> waits for both. The result is
  the response sent, or \<open>None\<close> when a sub-call never settles and nothing is sent.
\<close>

definition getDashboard :: "env \<Rightarrow> inbound \<Rightarrow> gateway \<Rightarrow> response option \<times> gateway" where
  "getDashboard e req gw =
     (if \<not> truthy (authHeader req)
      then (Some \<lparr>status = 401,
                  body = failure_body
                    (Some (JStr (''Token obrigat'' @ [CHR 0xC3, CHR 0xB3] @ ''rio'')))\<rparr>,
            gw)
      else
        (let (listsPromise, gw1) =
               callService e ''list-service'' ''/lists?limit=5'' (authHeader req) gw;
             (itemsPromise, gw2) =
               callService e ''item-service'' ''/items?limit=5'' None gw1
         in case allSettled listsPromise itemsPromise of
              None \<Rightarrow> (None, gw2)
            | Some (listsResponse, itemsResponse) \<Rightarrow>
                (case settled_slot listsResponse of
                   Inl _ \<Rightarrow>
                     (Some \<lparr>status = 500,
                            body = failure_body (Some (JStr ''Erro ao montar o dashboard''))\<rparr>,
                      gw2)
                 | Inr recentLists \<Rightarrow>
                     (case settled_slot itemsResponse of
                        Inl _ \<Rightarrow>
                          (Some \<lparr>status = 500,
                                 body = failure_body
                                   (Some (JStr ''Erro ao montar o dashboard''))\<rparr>,
                           gw2)
                      | Inr catalogItems \<Rightarrow>
                          (Some \<lparr>status = 200,
                                 body = success_body
                                   (mk_obj [(''recentLists'', recentLists),
                                            (''catalogItems'', catalogItems)])\<rparr>,
                           gw2)))))"

definition msg_q_required :: string where
  "msg_q_required =
     ''Par'' @ [CHR 0xC3, CHR 0xA2] @ ''metro de busca \"q\" '' @ [CHR 0xC3, CHR 0xA9]
       @ '' obrigat'' @ [CHR 0xC3, CHR 0xB3] @ ''rio''"

text \<open>
  \<^verbatim>\<open>globalSearch(req, res)\<close>, for a query parameter \<^verbatim>\<open>q\<close> given at most once, as a
  plain string. The result is the response sent, or \<open>None\<close> when the sub-call never
  settles.
\<close>

definition globalSearch :: "env \<Rightarrow> inbound \<Rightarrow> gateway \<Rightarrow> response option \<times> gateway" where
  "globalSearch e req gw =
     (if \<not> truthy (queryQ req)
      then (Some \<lparr>status = 400, body = failure_body (Some (JStr msg_q_required))\<rparr>, gw)
      else
        (case callService e ''item-service''
                (''/search?q='' @ (case queryQ req of None \<Rightarrow> [] | Some q \<Rightarrow> q)) None gw of
           (Pending, gw1) \<Rightarrow> (None, gw1)
         | (Rejected _, gw1) \<Rightarrow>
             (Some \<lparr>status = 500, body = failure_body (Some (JStr ''Erro na busca global''))\<rparr>,
              gw1)
         | (Fulfilled itemResults, gw1) \<Rightarrow>
             (case get_prop itemResults ''data'' of
                Inl _ \<Rightarrow>
                  (Some \<lparr>status = 500,
                         body = failure_body (Some (JStr ''Erro na busca global''))\<rparr>,
                   gw1)
              | Inr d \<Rightarrow>
                  (Some \<lparr>status = 200, body = success_body (mk_obj [(''items'', d)])\<rparr>, gw1))))"

text \<open>The outbound calls made for one service, read off a trace.\<close>

fun calls_to :: "string \<Rightarrow> event list \<Rightarrow> outbound list" where
  "calls_to n [] = []"
| "calls_to n (Discover m # es) = calls_to n es"
| "calls_to n (Call m out # es) = (if m = n then out # calls_to n es else calls_to n es)"

text \<open>
  Examples: the gateway as its constructor leaves it, a request, an environment with
  no registered service, and one with a single service for which every axios call
  has the same outcome.
\<close>

definition new_gateway :: gateway where
  "new_gateway = \<lparr>circuitBreakers = Map.empty, trace = []\<rparr>"

definition sample_request :: inbound where
  "sample_request =
     \<lparr>reqMethod = ''POST'', originalUrl = ''/api/lists/42/items'',
      reqBody = JObj [(''itemId'', JStr ''7''), (''quantity'', JNum 2)],
      authHeader = Some ''Bearer abc'', queryQ = Some ''arroz''\<rparr>"

definition no_services :: env where
  "no_services = \<lparr>registry = Map.empty, axios = (\<lambda>out. Rejected (AxiosError None))\<rparr>"

definition one_service :: "string \<Rightarrow> string \<Rightarrow> (nat \<times> json) promise \<Rightarrow> env" where
  "one_service name u r = \<lparr>registry = [name \<mapsto> u], axios = (\<lambda>out. r)\<rparr>"

text \<open>
  The body list-service sends with status 500 when adding an item fails,
  \<^verbatim>\<open>{ success: false, message: ..., error: error.message }\<close>, with the message
  "Erro ao adicionar item a lista" (its accented letter as the bytes C3 A0).
\<close>

definition add_item_error :: json where
  "add_item_error =
     JObj [(''success'', JBool False),
           (''message'', JStr (''Erro ao adicionar item '' @ [CHR 0xC3, CHR 0xA0] @ '' lista'')),
           (''error'', JStr ''connect ECONNREFUSED 127.0.0.1:3003'')]"

text \<open>
  An environment in which both services of the dashboard are registered, the
  list-service query is answered 200 with one list, and every other call is rejected
  without a response (connection refused).
\<close>

definition lists_only :: env where
  "lists_only =
     \<lparr>registry = [''list-service'' \<mapsto> ''http://127.0.0.1:3002'',
                  ''item-service'' \<mapsto> ''http://127.0.0.1:3003''],
      axios = (\<lambda>out. if url out = ''http://127.0.0.1:3002/lists?limit=5''
                       then Fulfilled (200, JObj [(''success'', JBool True),
                              (''data'', JArr [JObj [(''name'', JStr ''Feira'')]])])
                       else Rejected (AxiosError None))\<rparr>"

section \<open>Properties of the breaker\<close>

lemma tripped_at:
  "tripped name name = Some \<lparr>failures = 3, isOpen = True, lastFailure = Some 0\<rparr>"
  by (simp add: tripped_def recordFailure_def Let_def js_incr_def)

lemma run_ops_append: "run_ops (xs @ ys) cbs = run_ops ys (run_ops xs cbs)"
  by (induction xs arbitrary: cbs) simp_all

lemma apply_op_counts_up:
  assumes "x \<noteq> ResetCircuitBreaker s" and "cbs s = Some b"
  shows "\<exists>b'. apply_op x cbs s = Some b' \<and> failures b \<le> failures b'"
proof (cases x)
  case (IsCircuitOpen n now)
  with assms show ?thesis by (auto simp: isCircuitOpen_def split: option.splits)
next
  case (RecordFailure n now)
  with assms show ?thesis by (auto simp: recordFailure_def Let_def js_incr_def)
next
  case (ResetCircuitBreaker n)
  with assms show ?thesis by (auto simp: resetCircuitBreaker_def split: option.splits)
qed

lemma run_ops_counts_up:
  "\<forall>x\<in>set ops. x \<noteq> ResetCircuitBreaker s \<Longrightarrow> cbs s = Some b
   \<Longrightarrow> \<exists>b'. run_ops ops cbs s = Some b' \<and> failures b \<le> failures b'"
proof (induction ops arbitrary: cbs b)
  case Nil
  then show ?case by simp
next
  case (Cons x xs)
  from Cons.prems obtain b1 where b1: "apply_op x cbs s = Some b1" "failures b \<le> failures b1"
    using apply_op_counts_up [of x s cbs b] by auto
  from Cons.IH [of "apply_op x cbs" b1] b1(1) Cons.prems(1)
  obtain b' where "run_ops xs (apply_op x cbs) s = Some b'" "failures b1 \<le> failures b'"
    by auto
  with b1(2) show ?case by (auto intro: le_trans)
qed

lemma recordFailure_counts:
  "\<exists>b. recordFailure s now cbs s = Some b \<and> lastFailure b = Some now
       \<and> 1 \<le> failures b
       \<and> (\<forall>b0. cbs s = Some b0 \<longrightarrow> min (failures b0 + 1) 3 \<le> failures b)
       \<and> (3 \<le> failures b \<longrightarrow> isOpen b)"
  by (auto simp: recordFailure_def Let_def js_incr_def split: option.splits)

text \<open>
  C1. In any run of breaker operations, from any breaker table, that contains three
  \<^verbatim>\<open>recordFailure\<close> calls on a target with no \<^verbatim>\<open>resetCircuitBreaker\<close> of that
  target between them (checks, and operations on other targets, may come between),
  \<^verbatim>\<open>isCircuitOpen\<close> after the third failure answers true (the call is rejected) as
  long as no more than 30000 ms have passed since that failure.
\<close>

theorem three_failures_open:
  assumes nb: "\<forall>x\<in>set B. x \<noteq> ResetCircuitBreaker s"
    and nc: "\<forall>x\<in>set C. x \<noteq> ResetCircuitBreaker s"
    and within: "now - t3 \<le> 30000"
  shows "fst (isCircuitOpen s now
           (run_ops (RecordFailure s t1 # B @ RecordFailure s t2 # C @ [RecordFailure s t3]) cbs))
         = True"
proof -
  let ?c1 = "recordFailure s t1 cbs"
  let ?c1' = "run_ops B ?c1"
  let ?c2 = "recordFailure s t2 ?c1'"
  let ?c2' = "run_ops C ?c2"
  let ?c3 = "recordFailure s t3 ?c2'"
  have run: "run_ops (RecordFailure s t1 # B @ RecordFailure s t2 # C @ [RecordFailure s t3]) cbs
               = ?c3"
    by (simp add: run_ops_append)
  obtain b1 where b1: "?c1 s = Some b1" "1 \<le> failures b1"
    using recordFailure_counts [of s t1 cbs] by auto
  obtain b1' where b1': "?c1' s = Some b1'" "1 \<le> failures b1'"
    using run_ops_counts_up [of B s ?c1 b1] nb b1 by (auto intro: le_trans)
  obtain b2 where b2: "?c2 s = Some b2" "2 \<le> failures b2"
    using recordFailure_counts [of s t2 ?c1'] b1' by fastforce
  obtain b2' where b2': "?c2' s = Some b2'" "2 \<le> failures b2'"
    using run_ops_counts_up [of C s ?c2 b2] nc b2 by (auto intro: le_trans)
  obtain b3 where b3: "?c3 s = Some b3" "lastFailure b3 = Some t3" "isOpen b3"
    using recordFailure_counts [of s t3 ?c2'] b2' by fastforce
  from b3 within show ?thesis
    unfolding run by (simp add: isCircuitOpen_def elapsed_def)
qed

theorem three_failures_open_witness:
  "fst (isCircuitOpen ''catalog'' 30007
     (run_ops (RecordFailure ''catalog'' 0 # [IsCircuitOpen ''catalog'' 3, RecordFailure ''users'' 4]
        @ RecordFailure ''catalog'' 5 # [ResetCircuitBreaker ''users'']
        @ [RecordFailure ''catalog'' 7]) Map.empty)) = True"
  by (rule three_failures_open) simp_all

text \<open>
  C3 as stated fails at the boundary: the breaker of \<^verbatim>\<open>catalog\<close> opened at
  \<open>T = 0\<close>, and the check at \<open>T + 30000\<close> still answers true (rejects), since
  the code compares with \<^verbatim>\<open>> 30000\<close>.
\<close>

theorem check_at_timeout_rejects:
  "tripped ''catalog'' ''catalog'' = Some \<lparr>failures = 3, isOpen = True, lastFailure = Some 0\<rparr>
   \<and> fst (isCircuitOpen ''catalog'' (0 + 30000) (tripped ''catalog'')) = True"
  by (simp add: tripped_at isCircuitOpen_def elapsed_def)

lemma check_within_window:
  "cbs s = Some b \<Longrightarrow> isOpen b \<Longrightarrow> lastFailure b = Some T \<Longrightarrow> t \<le> T + 30000
   \<Longrightarrow> isCircuitOpen s t cbs = (True, cbs)"
  by (simp add: isCircuitOpen_def elapsed_def)

lemma checks_within_window:
  "cbs s = Some b \<Longrightarrow> isOpen b \<Longrightarrow> lastFailure b = Some T \<Longrightarrow> \<forall>t\<in>set ts. t \<le> T + 30000
   \<Longrightarrow> checks s ts cbs = (replicate (length ts) True, cbs)"
  by (induction ts) (simp_all add: check_within_window)

lemma check_after_window:
  "cbs s = Some b \<Longrightarrow> isOpen b \<Longrightarrow> lastFailure b = Some T \<Longrightarrow> T + 30000 < now
   \<Longrightarrow> isCircuitOpen s now cbs = (False, cbs(s \<mapsto> b\<lparr>isOpen := False\<rparr>))"
  by (simp add: isCircuitOpen_def elapsed_def)

text \<open>
  C3, amended. A breaker opened at \<open>T\<close> with no outcome recorded since: every
  check at or before \<open>T + 30000\<close> rejects and leaves the table as it is, however
  many there are, and the first check strictly after \<open>T + 30000\<close> permits the call.
\<close>

theorem open_window:
  assumes "cbs s = Some b" and "isOpen b" and "lastFailure b = Some T"
    and "\<forall>t\<in>set ts. t \<le> T + 30000" and "T + 30000 < now"
  shows "checks s ts cbs = (replicate (length ts) True, cbs)
         \<and> fst (isCircuitOpen s now (snd (checks s ts cbs))) = False"
proof -
  have c: "checks s ts cbs = (replicate (length ts) True, cbs)"
    using assms(1-4) by (rule checks_within_window)
  have "isCircuitOpen s now cbs = (False, cbs(s \<mapsto> b\<lparr>isOpen := False\<rparr>))"
    using assms(1-3,5) by (rule check_after_window)
  with c show ?thesis by simp
qed

theorem open_window_witness:
  "checks ''catalog'' [0, 15000, 30000] (tripped ''catalog'')
     = (replicate (length [0, 15000, 30000 :: int]) True, tripped ''catalog'')
   \<and> fst (isCircuitOpen ''catalog'' 30001
        (snd (checks ''catalog'' [0, 15000, 30000] (tripped ''catalog'')))) = False"
  by (rule open_window [where b = "\<lparr>failures = 3, isOpen = True, lastFailure = Some 0\<rparr>"
        and T = 0])
    (simp_all add: tripped_at)

text \<open>
  C4 as stated fails: once the timeout has passed, the check at 30001 is permitted,
  and so is the next check at 30002, with no outcome recorded in between.
\<close>

theorem second_trial_permitted:
  "fst (isCircuitOpen ''catalog'' 30001 (tripped ''catalog'')) = False
   \<and> fst (isCircuitOpen ''catalog'' 30002
        (snd (isCircuitOpen ''catalog'' 30001 (tripped ''catalog'')))) = False"
  by (simp add: tripped_at isCircuitOpen_def elapsed_def)

lemma check_closed:
  "cbs s = Some b \<Longrightarrow> \<not> isOpen b \<Longrightarrow> isCircuitOpen s t cbs = (False, cbs)"
  by (simp add: isCircuitOpen_def)

lemma checks_closed:
  "cbs s = Some b \<Longrightarrow> \<not> isOpen b \<Longrightarrow> checks s ts cbs = (replicate (length ts) False, cbs)"
  by (induction ts) (simp_all add: check_closed)

text \<open>
  C4, amended. After the timeout has passed on an open breaker, the first check
  clears the open flag and keeps the failure counter; every further check on the
  same target, at any time before an outcome is recorded, is permitted as well. The
  number of trial calls is not limited to one.
\<close>

theorem trial_not_single:
  assumes "cbs s = Some b" and "isOpen b" and "lastFailure b = Some T" and "T + 30000 < now"
  shows "isCircuitOpen s now cbs = (False, cbs(s \<mapsto> b\<lparr>isOpen := False\<rparr>))
         \<and> checks s ts (snd (isCircuitOpen s now cbs))
             = (replicate (length ts) False, snd (isCircuitOpen s now cbs))"
proof -
  have first: "isCircuitOpen s now cbs = (False, cbs(s \<mapsto> b\<lparr>isOpen := False\<rparr>))"
    using assms by (rule check_after_window)
  let ?cbs = "cbs(s \<mapsto> b\<lparr>isOpen := False\<rparr>)"
  have "checks s ts ?cbs = (replicate (length ts) False, ?cbs)"
    by (rule checks_closed [where b = "b\<lparr>isOpen := False\<rparr>"]) simp_all
  with first show ?thesis by simp
qed

theorem trial_not_single_witness:
  "isCircuitOpen ''catalog'' 30001 (tripped ''catalog'')
     = (False, (tripped ''catalog'')(''catalog'' \<mapsto>
          \<lparr>failures = 3, isOpen = True, lastFailure = Some 0\<rparr>\<lparr>isOpen := False\<rparr>))
   \<and> checks ''catalog'' [30002, 30003] (snd (isCircuitOpen ''catalog'' 30001 (tripped ''catalog'')))
       = (replicate (length [30002, 30003 :: int]) False,
          snd (isCircuitOpen ''catalog'' 30001 (tripped ''catalog'')))"
  by (rule trial_not_single [where T = 0]) (simp_all add: tripped_at)

lemma apply_op_keeps_threshold:
  assumes inv: "\<forall>s b. cbs s = Some b \<longrightarrow> isOpen b \<longrightarrow> 3 \<le> failures b"
    and "apply_op x cbs s = Some b" and "isOpen b"
  shows "3 \<le> failures b"
proof (cases x)
  case (IsCircuitOpen n now)
  with assms show ?thesis
    by (auto simp: isCircuitOpen_def split: option.splits if_splits)
next
  case (RecordFailure n now)
  show ?thesis
  proof (cases "s = n")
    case True
    with RecordFailure assms(2,3) inv [rule_format, of n] show ?thesis
      by (auto simp: recordFailure_def Let_def js_incr_def split: option.splits if_splits)
  next
    case False
    with RecordFailure assms(2,3) inv [rule_format, of s b] show ?thesis
      by (simp add: recordFailure_def Let_def)
  qed
next
  case (ResetCircuitBreaker n)
  with assms show ?thesis
    by (auto simp: resetCircuitBreaker_def split: option.splits if_splits)
qed

lemma run_ops_keeps_threshold:
  "\<forall>s b. cbs s = Some b \<longrightarrow> isOpen b \<longrightarrow> 3 \<le> failures b
   \<Longrightarrow> run_ops ops cbs s = Some b \<Longrightarrow> isOpen b \<Longrightarrow> 3 \<le> failures b"
proof (induction ops arbitrary: cbs)
  case Nil
  then show ?case by simp
next
  case (Cons x xs)
  have "\<forall>s b. apply_op x cbs s = Some b \<longrightarrow> isOpen b \<longrightarrow> 3 \<le> failures b"
    using apply_op_keeps_threshold [OF Cons.prems(1)] by blast
  from Cons.IH [OF this] Cons.prems(2,3) show ?case by simp
qed

text \<open>
  C5. In every breaker table reached from the empty table of a new gateway by any
  sequence of \<^verbatim>\<open>isCircuitOpen\<close>, \<^verbatim>\<open>recordFailure\<close> and \<^verbatim>\<open>resetCircuitBreaker\<close>
  calls, on any targets and at any clock values, a breaker that is open has a
  failure counter of at least 3.
\<close>

theorem open_implies_threshold:
  assumes "run_ops ops Map.empty s = Some b" and "isOpen b"
  shows "3 \<le> failures b"
  using run_ops_keeps_threshold [of Map.empty ops s b] assms by simp

theorem open_implies_threshold_witness:
  "run_ops [RecordFailure ''catalog'' 0, RecordFailure ''catalog'' 5, IsCircuitOpen ''catalog'' 7,
            RecordFailure ''catalog'' 9, ResetCircuitBreaker ''users'', IsCircuitOpen ''catalog'' 11]
     Map.empty ''catalog'' = Some \<lparr>failures = 3, isOpen = True, lastFailure = Some 9\<rparr>
   \<and> isOpen \<lparr>failures = 3, isOpen = True, lastFailure = Some 9\<rparr>
   \<and> 3 \<le> failures \<lparr>failures = 3, isOpen = True, lastFailure = Some 9\<rparr>"
proof -
  have r: "run_ops [RecordFailure ''catalog'' 0, RecordFailure ''catalog'' 5,
              IsCircuitOpen ''catalog'' 7, RecordFailure ''catalog'' 9,
              ResetCircuitBreaker ''users'', IsCircuitOpen ''catalog'' 11]
             Map.empty ''catalog'' = Some \<lparr>failures = 3, isOpen = True, lastFailure = Some 9\<rparr>"
    by (simp add: recordFailure_def isCircuitOpen_def resetCircuitBreaker_def Let_def
        js_incr_def elapsed_def)
  have o: "isOpen \<lparr>failures = 3, isOpen = True, lastFailure = Some 9\<rparr>" by simp
  show ?thesis using r o open_implies_threshold [OF r o] by simp
qed

section \<open>Properties of the proxy path\<close>

lemma failure_body_Some:
  "failure_body (Some m) = JObj [(''success'', JBool False), (''message'', m)]"
  by (simp add: failure_body_def mk_obj_def List.map_filter_simps)

lemma failure_body_None:
  "failure_body None = JObj [(''success'', JBool False)]"
  by (simp add: failure_body_def mk_obj_def List.map_filter_simps)

lemma success_body_eq:
  "success_body d = JObj [(''success'', JBool True), (''data'', d)]"
  by (simp add: success_body_def mk_obj_def List.map_filter_simps)

lemma proxy_rejected:
  assumes "circuitBreakers gw s = Some b" and "isOpen b"
    and "elapsed tc (lastFailure b) \<le> 30000"
  shows "proxyRequest e s base req tc tf gw =
           (Some \<lparr>status = 503,
                  body = JObj [(''success'', JBool False),
                               (''message'', JStr (msg_temporarily_unavailable s))]\<rparr>, gw)"
  using assms by (simp add: proxyRequest_def isCircuitOpen_def failure_body_Some)

lemma proxy_unregistered:
  assumes "fst (isCircuitOpen s tc (circuitBreakers gw)) = False" and "registry e s = None"
  shows "proxyRequest e s base req tc tf gw =
           (Some \<lparr>status = 503,
                  body = JObj [(''success'', JBool False), (''message'', JStr (msg_unavailable s))]\<rparr>,
            gw\<lparr>circuitBreakers :=
                  recordFailure s tf (snd (isCircuitOpen s tc (circuitBreakers gw))),
                trace := trace gw @ [Discover s]\<rparr>)"
  using assms
  by (cases "isCircuitOpen s tc (circuitBreakers gw)")
     (simp add: proxyRequest_def proxyAttempt_def discover_def failure_body_Some Let_def)

text \<open>
  C2. A proxied request whose target has an open breaker, with no more than 30000 ms
  since its last failure, is answered at once with status 503; the trace of registry
  lookups and outbound calls is unchanged (no discovery, no network call), and so is
  the breaker table.
\<close>

theorem open_breaker_rejects:
  assumes "circuitBreakers gw s = Some b" and "isOpen b"
    and "elapsed tCheck (lastFailure b) \<le> 30000"
  shows "fst (proxyRequest e s base req tCheck tFail gw) =
           Some \<lparr>status = 503,
                 body = JObj [(''success'', JBool False),
                              (''message'', JStr (msg_temporarily_unavailable s))]\<rparr>
         \<and> trace (snd (proxyRequest e s base req tCheck tFail gw)) = trace gw
         \<and> circuitBreakers (snd (proxyRequest e s base req tCheck tFail gw)) = circuitBreakers gw"
  using proxy_rejected [OF assms] by simp

theorem open_breaker_rejects_witness:
  "fst (proxyRequest (one_service ''catalog'' ''http://host:9003'' (Fulfilled (200, JNull)))
          ''catalog'' ''/items'' sample_request 29999 30000
          \<lparr>circuitBreakers = tripped ''catalog'', trace = []\<rparr>) =
     Some \<lparr>status = 503,
           body = JObj [(''success'', JBool False),
                        (''message'', JStr (msg_temporarily_unavailable ''catalog''))]\<rparr>
   \<and> trace (snd (proxyRequest
          (one_service ''catalog'' ''http://host:9003'' (Fulfilled (200, JNull)))
          ''catalog'' ''/items'' sample_request 29999 30000
          \<lparr>circuitBreakers = tripped ''catalog'', trace = []\<rparr>)) =
       trace \<lparr>circuitBreakers = tripped ''catalog'', trace = []\<rparr>
   \<and> circuitBreakers (snd (proxyRequest
          (one_service ''catalog'' ''http://host:9003'' (Fulfilled (200, JNull)))
          ''catalog'' ''/items'' sample_request 29999 30000
          \<lparr>circuitBreakers = tripped ''catalog'', trace = []\<rparr>)) =
       circuitBreakers \<lparr>circuitBreakers = tripped ''catalog'', trace = []\<rparr>"
  by (rule open_breaker_rejects
        [where b = "\<lparr>failures = 3, isOpen = True, lastFailure = Some 0\<rparr>"])
     (simp_all add: tripped_at elapsed_def)

text \<open>
  C6 as stated fails for the body: list-service answers 500 with a body of three
  members, axios rejects with that response, and the gateway's response carries the
  status 500 but a body rebuilt from the \<^verbatim>\<open>message\<close> member alone, which is not the
  downstream body.
\<close>

theorem error_body_rebuilt:
  "fst (proxyRequest
          (one_service ''list-service'' ''http://127.0.0.1:3002''
             (Rejected (AxiosError (Some (500, add_item_error)))))
          ''list-service'' ''/lists'' sample_request 0 0 new_gateway) =
     Some \<lparr>status = 500,
           body = JObj [(''success'', JBool False),
                        (''message'', JStr (''Erro ao adicionar item '' @ [CHR 0xC3, CHR 0xA0]
                                              @ '' lista''))]\<rparr>
   \<and> JObj [(''success'', JBool False),
            (''message'', JStr (''Erro ao adicionar item '' @ [CHR 0xC3, CHR 0xA0] @ '' lista''))]
       \<noteq> add_item_error"
  by (simp add: proxyRequest_def proxyAttempt_def isCircuitOpen_def discover_def
      one_service_def new_gateway_def sample_request_def add_item_error_def get_prop_def
      failure_body_Some Let_def)

text \<open>
  C6, amended. When a proxied request passes the breaker, the target is registered and
  axios rejects the outbound call with the downstream's response (status \<open>st\<close>,
  body \<open>d\<close>) and \<open>d\<close> is not \<^verbatim>\<open>null\<close> (so that reading its \<^verbatim>\<open>message\<close> member
  gives \<open>m\<close>), \<^verbatim>\<open>proxyRequest\<close> records a breaker failure for the target and
  responds with the status \<open>st\<close> and the body \<^verbatim>\<open>{ success: false, message: m }\<close>, the
  member left out when \<open>m\<close> is \<^verbatim>\<open>undefined\<close>. A reply that axios does not reject,
  such as a redirect it follows, is not covered.
\<close>

theorem rejected_response_passthrough:
  assumes "fst (isCircuitOpen s tCheck (circuitBreakers gw)) = False"
    and "registry e s = Some u"
    and "axios e \<lparr>httpMethod = reqMethod req,
                   url = u @ replace_first (''/api'' @ base) base (originalUrl req),
                   payload = Some (reqBody req), authorization = authHeader req\<rparr>
           = Rejected (AxiosError (Some (st, d)))"
    and "get_prop d ''message'' = Inr m"
  shows "fst (proxyRequest e s base req tCheck tFail gw) =
           Some \<lparr>status = st,
                 body = JObj ((''success'', JBool False)
                              # (case m of None \<Rightarrow> [] | Some v \<Rightarrow> [(''message'', v)]))\<rparr>
         \<and> circuitBreakers (snd (proxyRequest e s base req tCheck tFail gw)) =
             recordFailure s tFail (snd (isCircuitOpen s tCheck (circuitBreakers gw)))"
  using assms
  by (cases "isCircuitOpen s tCheck (circuitBreakers gw)"; cases m)
     (auto simp: proxyRequest_def proxyAttempt_def discover_def Let_def
        failure_body_Some failure_body_None)

theorem rejected_response_passthrough_witness:
  "fst (proxyRequest
          (one_service ''list-service'' ''http://127.0.0.1:3002''
             (Rejected (AxiosError (Some (500, add_item_error)))))
          ''list-service'' ''/lists'' sample_request 0 1 new_gateway) =
     Some \<lparr>status = 500,
           body = JObj ((''success'', JBool False)
                        # (case Some (JStr (''Erro ao adicionar item '' @ [CHR 0xC3, CHR 0xA0]
                                              @ '' lista'')) of
                             None \<Rightarrow> [] | Some v \<Rightarrow> [(''message'', v)]))\<rparr>
   \<and> circuitBreakers (snd (proxyRequest
          (one_service ''list-service'' ''http://127.0.0.1:3002''
             (Rejected (AxiosError (Some (500, add_item_error)))))
          ''list-service'' ''/lists'' sample_request 0 1 new_gateway)) =
       recordFailure ''list-service'' 1
         (snd (isCircuitOpen ''list-service'' 0 (circuitBreakers new_gateway)))"
  by (rule rejected_response_passthrough
        [where u = "''http://127.0.0.1:3002''" and d = add_item_error])
     (simp_all add: isCircuitOpen_def new_gateway_def one_service_def add_item_error_def
        get_prop_def)

section \<open>Properties of the aggregate endpoints\<close>

lemma callService_trace:
  "trace (snd (callService e n p a gw)) =
     trace gw @ Discover n #
       (case registry e n of
          None \<Rightarrow> []
        | Some u \<Rightarrow> [Call n \<lparr>httpMethod = ''GET'', url = u @ p, payload = None,
                              authorization = (if truthy a then a else None)\<rparr>])"
  by (simp add: callService_def discover_def Let_def
      split: sum.splits prod.splits option.splits promise.splits)

lemma callService_keeps_breakers:
  "circuitBreakers (snd (callService e n p a gw)) = circuitBreakers gw"
  by (simp add: callService_def Let_def split: sum.splits prod.splits promise.splits)

lemma getDashboard_state:
  "snd (getDashboard e req gw) =
     (if truthy (authHeader req)
      then snd (callService e ''item-service'' ''/items?limit=5'' None
                  (snd (callService e ''list-service'' ''/lists?limit=5'' (authHeader req) gw)))
      else gw)"
  by (simp add: getDashboard_def Let_def split: sum.splits prod.splits option.splits)

lemma globalSearch_state:
  "snd (globalSearch e req gw) =
     (if truthy (queryQ req)
      then snd (callService e ''item-service''
                  (''/search?q='' @ (case queryQ req of None \<Rightarrow> [] | Some q \<Rightarrow> q)) None gw)
      else gw)"
  by (simp add: globalSearch_def split: sum.splits prod.splits promise.splits)


text \<open>
  Away from that input the handler does what it sets out to do. For an authenticated
  request in which one sub-call is rejected and the other is fulfilled with a body
  \<open>v\<close> other than \<^verbatim>\<open>null\<close> (reading its \<^verbatim>\<open>data\<close> member gives \<open>d\<close>), the
  response has status 200 and its \<^verbatim>\<open>data\<close> holds \<open>d\<close> in the slot of the fulfilled
  branch and the empty list in the slot of the rejected one.
\<close>

lemma dashboard_tolerates_rejection:
  assumes "truthy (authHeader req)"
    and "callService e ''list-service'' ''/lists?limit=5'' (authHeader req) gw = (rl, gwl)"
    and "callService e ''item-service'' ''/items?limit=5'' None gwl = (ri, gwi)"
    and "(rl = Rejected err \<and> ri = Fulfilled v) \<or> (rl = Fulfilled v \<and> ri = Rejected err)"
    and "get_prop v ''data'' = Inr d"
  shows "fst (getDashboard e req gw) =
           Some \<lparr>status = 200,
                 body = JObj [(''success'', JBool True),
                              (''data'', mk_obj
                                 [(''recentLists'',
                                     if rl = Rejected err then Some (JArr []) else d),
                                  (''catalogItems'',
                                     if ri = Rejected err then Some (JArr []) else d)])]\<rparr>"
  using assms
  by (auto simp: getDashboard_def Let_def settled_slot_def allSettled_def settle_def
      success_body_eq)

lemma dashboard_lists_only:
  "fst (getDashboard lists_only sample_request new_gateway) =
     Some \<lparr>status = 200,
           body = JObj [(''success'', JBool True),
                        (''data'', JObj [(''recentLists'', JArr [JObj [(''name'', JStr ''Feira'')]]),
                                        (''catalogItems'', JArr [])])]\<rparr>"
  by (simp add: getDashboard_def callService_def discover_def lists_only_def
      sample_request_def new_gateway_def truthy_def settled_slot_def get_prop_def
      allSettled_def settle_def success_body_eq mk_obj_def List.map_filter_simps Let_def)

text \<open>
  With no \<^verbatim>\<open>timeout\<close> given to axios, a sub-call to a target that stays silent never
  settles; \<^verbatim>\<open>Promise.allSettled\<close> then never returns and no response is sent.
\<close>

lemma dashboard_waits_for_both:
  assumes "truthy (authHeader req)"
    and "callService e ''list-service'' ''/lists?limit=5'' (authHeader req) gw = (rl, gwl)"
    and "callService e ''item-service'' ''/items?limit=5'' None gwl = (ri, gwi)"
    and "rl = Pending \<or> ri = Pending"
  shows "fst (getDashboard e req gw) = None"
  using assms
  by (auto simp: getDashboard_def Let_def allSettled_def settle_def split: promise.splits)

text \<open>
  C8 as stated fails: with the breaker of item-service open (and its timeout not
  passed), \<^verbatim>\<open>globalSearch\<close> still looks the service up and makes the outbound
  call; the call is rejected, and the breaker table afterwards is the one before.
\<close>

theorem search_ignores_open_breaker:
  "fst (isCircuitOpen ''item-service'' 1 (tripped ''item-service'')) = True
   \<and> trace (snd (globalSearch
          (one_service ''item-service'' ''http://127.0.0.1:3003'' (Rejected (AxiosError None)))
          sample_request \<lparr>circuitBreakers = tripped ''item-service'', trace = []\<rparr>)) =
       [Discover ''item-service'',
        Call ''item-service'' \<lparr>httpMethod = ''GET'',
          url = ''http://127.0.0.1:3003/search?q=arroz'', payload = None, authorization = None\<rparr>]
   \<and> circuitBreakers (snd (globalSearch
          (one_service ''item-service'' ''http://127.0.0.1:3003'' (Rejected (AxiosError None)))
          sample_request \<lparr>circuitBreakers = tripped ''item-service'', trace = []\<rparr>)) =
       tripped ''item-service''"
  by (simp add: globalSearch_def callService_def discover_def one_service_def
      sample_request_def truthy_def isCircuitOpen_def elapsed_def tripped_at Let_def)

lemma getDashboard_keeps_breakers:
  "circuitBreakers (snd (getDashboard e req gw)) = circuitBreakers gw"
  by (simp add: getDashboard_state callService_keeps_breakers)

lemma globalSearch_keeps_breakers:
  "circuitBreakers (snd (globalSearch e req gw)) = circuitBreakers gw"
  by (simp add: globalSearch_state callService_keeps_breakers)

text \<open>
  C8, amended. Every sub-call of the aggregate endpoints is a \<^verbatim>\<open>callService\<close>
  call (two for an authenticated dashboard request, one for a search with a
  query), and \<^verbatim>\<open>callService\<close> neither consults nor updates the breakers: from any
  gateway state, so whatever the breaker table holds, it looks the service up and,
  when the service is registered, makes the outbound call; its result is the outcome
  of that call; and the breaker table is left as it was, whether the sub-call is
  fulfilled, is rejected or never settles.
\<close>

theorem aggregates_bypass_breaker:
  "trace (snd (callService e n p a gw)) =
     trace gw @ Discover n #
       (case registry e n of
          None \<Rightarrow> []
        | Some u \<Rightarrow> [Call n \<lparr>httpMethod = ''GET'', url = u @ p, payload = None,
                              authorization = (if truthy a then a else None)\<rparr>])
   \<and> fst (callService e n p a gw) =
       (case registry e n of
          None \<Rightarrow> Rejected (NotRegistered n)
        | Some u \<Rightarrow>
            (case axios e \<lparr>httpMethod = ''GET'', url = u @ p, payload = None,
                            authorization = (if truthy a then a else None)\<rparr> of
               Pending \<Rightarrow> Pending
             | Rejected err \<Rightarrow> Rejected err
             | Fulfilled (st, d) \<Rightarrow> Fulfilled d))
   \<and> circuitBreakers (snd (callService e n p a gw)) = circuitBreakers gw
   \<and> snd (getDashboard e req gw) =
       (if truthy (authHeader req)
        then snd (callService e ''item-service'' ''/items?limit=5'' None
                    (snd (callService e ''list-service'' ''/lists?limit=5'' (authHeader req) gw)))
        else gw)
   \<and> snd (globalSearch e req gw) =
       (if truthy (queryQ req)
        then snd (callService e ''item-service''
                    (''/search?q='' @ (case queryQ req of None \<Rightarrow> [] | Some q \<Rightarrow> q)) None gw)
        else gw)
   \<and> circuitBreakers (snd (getDashboard e req gw)) = circuitBreakers gw
   \<and> circuitBreakers (snd (globalSearch e req gw)) = circuitBreakers gw"
proof -
  have "fst (callService e n p a gw) =
       (case registry e n of
          None \<Rightarrow> Rejected (NotRegistered n)
        | Some u \<Rightarrow>
            (case axios e \<lparr>httpMethod = ''GET'', url = u @ p, payload = None,
                            authorization = (if truthy a then a else None)\<rparr> of
               Pending \<Rightarrow> Pending
             | Rejected err \<Rightarrow> Rejected err
             | Fulfilled (st, d) \<Rightarrow> Fulfilled d))"
    by (simp add: callService_def discover_def Let_def
        split: option.splits promise.splits prod.splits)
  then show ?thesis
    using callService_trace [of e n p a gw] callService_keeps_breakers [of e n p a gw]
      getDashboard_state [of e req gw] globalSearch_state [of e req gw]
      getDashboard_keeps_breakers [of e req gw] globalSearch_keeps_breakers [of e req gw]
    by blast
qed

lemma calls_to_append: "calls_to n (xs @ ys) = calls_to n xs @ calls_to n ys"
  by (induction n xs rule: calls_to.induct) simp_all

lemma getDashboard_trace:
  assumes "truthy (authHeader req)"
  shows "trace (snd (getDashboard e req gw)) =
           trace gw
           @ Discover ''list-service''
             # (case registry e ''list-service'' of
                  None \<Rightarrow> []
                | Some u \<Rightarrow> [Call ''list-service'' \<lparr>httpMethod = ''GET'',
                     url = u @ ''/lists?limit=5'', payload = None,
                     authorization = authHeader req\<rparr>])
           @ Discover ''item-service''
             # (case registry e ''item-service'' of
                  None \<Rightarrow> []
                | Some u \<Rightarrow> [Call ''item-service'' \<lparr>httpMethod = ''GET'',
                     url = u @ ''/items?limit=5'', payload = None, authorization = None\<rparr>])"
  using assms
  by (simp add: getDashboard_state callService_trace)

text \<open>
  C9. For authenticated dashboard requests that differ only in the credential, the
  requests sent to item-service are the same. The handler makes at most two outbound
  calls: the one to list-service carries the caller's \<^verbatim>\<open>Authorization\<close> value,
  the one to item-service carries none.
\<close>

theorem dashboard_credential:
  assumes "truthy a" and "truthy a'"
  shows "calls_to ''item-service'' (trace (snd (getDashboard e (req\<lparr>authHeader := a\<rparr>) gw))) =
         calls_to ''item-service'' (trace (snd (getDashboard e (req\<lparr>authHeader := a'\<rparr>) gw)))
       \<and> trace (snd (getDashboard e (req\<lparr>authHeader := a\<rparr>) gw)) =
           trace gw
           @ Discover ''list-service''
             # (case registry e ''list-service'' of
                  None \<Rightarrow> []
                | Some u \<Rightarrow> [Call ''list-service'' \<lparr>httpMethod = ''GET'',
                     url = u @ ''/lists?limit=5'', payload = None, authorization = a\<rparr>])
           @ Discover ''item-service''
             # (case registry e ''item-service'' of
                  None \<Rightarrow> []
                | Some u \<Rightarrow> [Call ''item-service'' \<lparr>httpMethod = ''GET'',
                     url = u @ ''/items?limit=5'', payload = None, authorization = None\<rparr>])"
proof -
  have ta: "truthy (authHeader (req\<lparr>authHeader := a\<rparr>))"
    and tb: "truthy (authHeader (req\<lparr>authHeader := a'\<rparr>))"
    using assms by simp_all
  show ?thesis
    using getDashboard_trace [OF ta, of e gw] getDashboard_trace [OF tb, of e gw]
    by (simp add: calls_to_append split: option.splits)
qed

theorem dashboard_credential_witness:
  "calls_to ''item-service''
     (trace (snd (getDashboard lists_only (sample_request\<lparr>authHeader := Some ''Bearer abc''\<rparr>)
        new_gateway))) =
   calls_to ''item-service''
     (trace (snd (getDashboard lists_only (sample_request\<lparr>authHeader := Some ''Bearer xyz''\<rparr>)
        new_gateway)))
   \<and> trace (snd (getDashboard lists_only (sample_request\<lparr>authHeader := Some ''Bearer abc''\<rparr>)
        new_gateway)) =
       trace new_gateway
       @ Discover ''list-service''
         # (case registry lists_only ''list-service'' of
              None \<Rightarrow> []
            | Some u \<Rightarrow> [Call ''list-service'' \<lparr>httpMethod = ''GET'',
                 url = u @ ''/lists?limit=5'', payload = None,
                 authorization = Some ''Bearer abc''\<rparr>])
       @ Discover ''item-service''
         # (case registry lists_only ''item-service'' of
              None \<Rightarrow> []
            | Some u \<Rightarrow> [Call ''item-service'' \<lparr>httpMethod = ''GET'',
                 url = u @ ''/items?limit=5'', payload = None, authorization = None\<rparr>])"
  by (rule dashboard_credential) (simp_all add: truthy_def)

section \<open>Unregistered targets\<close>

lemma failure_on_absent:
  assumes "cbs s = None"
  shows "fst (isCircuitOpen s c cbs) = False"
    and "recordFailure s t (snd (isCircuitOpen s c cbs)) s =
           Some \<lparr>failures = 1, isOpen = False, lastFailure = Some t\<rparr>"
  using assms by (simp_all add: isCircuitOpen_def recordFailure_def Let_def js_incr_def)

lemma failure_on_closed:
  assumes "cbs s = Some \<lparr>failures = n, isOpen = False, lastFailure = l\<rparr>"
  shows "fst (isCircuitOpen s c cbs) = False"
    and "recordFailure s t (snd (isCircuitOpen s c cbs)) s =
           Some \<lparr>failures = js_incr n, isOpen = (3 \<le> js_incr n), lastFailure = Some t\<rparr>"
  using assms by (simp_all add: isCircuitOpen_def recordFailure_def Let_def)

text \<open>
  C10. For a service name that is not registered and has no breaker yet, each
  proxied request fails at discovery and is recorded as a breaker failure; after
  three such requests the breaker is open with three failures, and a fourth request
  whose check comes within 30000 ms of the third failure is answered 503 by the
  breaker, with the gateway state (and so the trace of lookups) unchanged.
\<close>

theorem unregistered_opens_breaker:
  fixes ea eb ec ed :: env and s basea baseb basec based :: string
    and ra rb rc rd :: inbound and ca fa cb fb cc fc cd fd :: int and gw :: gateway
  defines "qa \<equiv> proxyRequest ea s basea ra ca fa gw"
  defines "qb \<equiv> proxyRequest eb s baseb rb cb fb (snd qa)"
  defines "qc \<equiv> proxyRequest ec s basec rc cc fc (snd qb)"
  defines "qd \<equiv> proxyRequest ed s based rd cd fd (snd qc)"
  assumes fresh: "circuitBreakers gw s = None"
    and una: "registry ea s = None" and unb: "registry eb s = None" and unc: "registry ec s = None"
    and within: "cd - fc \<le> 30000"
  shows "circuitBreakers (snd qa) s = Some \<lparr>failures = 1, isOpen = False, lastFailure = Some fa\<rparr>
       \<and> circuitBreakers (snd qc) s = Some \<lparr>failures = 3, isOpen = True, lastFailure = Some fc\<rparr>
       \<and> trace (snd qc) = trace gw @ [Discover s, Discover s, Discover s]
       \<and> fst qd = Some \<lparr>status = 503,
                         body = JObj [(''success'', JBool False),
                                      (''message'', JStr (msg_temporarily_unavailable s))]\<rparr>
       \<and> snd qd = snd qc"
proof -
  have sta: "snd qa = gw\<lparr>circuitBreakers :=
                recordFailure s fa (snd (isCircuitOpen s ca (circuitBreakers gw))),
              trace := trace gw @ [Discover s]\<rparr>"
    unfolding qa_def using proxy_unregistered [OF failure_on_absent(1) [of "circuitBreakers gw" s, OF fresh] una] by simp
  have kka: "circuitBreakers (snd qa) s =
              Some \<lparr>failures = 1, isOpen = False, lastFailure = Some fa\<rparr>"
    using failure_on_absent(2) [of "circuitBreakers gw" s, OF fresh] by (simp add: sta)
  have stb: "snd qb = (snd qa)\<lparr>circuitBreakers :=
                recordFailure s fb (snd (isCircuitOpen s cb (circuitBreakers (snd qa)))),
              trace := trace (snd qa) @ [Discover s]\<rparr>"
    unfolding qb_def using proxy_unregistered [OF failure_on_closed(1) [of "circuitBreakers (snd qa)" s, OF kka] unb] by simp
  have kkb: "circuitBreakers (snd qb) s =
              Some \<lparr>failures = 2, isOpen = False, lastFailure = Some fb\<rparr>"
    using failure_on_closed(2) [of "circuitBreakers (snd qa)" s, OF kka, of fb cb] by (simp add: stb js_incr_def)
  have stc: "snd qc = (snd qb)\<lparr>circuitBreakers :=
                recordFailure s fc (snd (isCircuitOpen s cc (circuitBreakers (snd qb)))),
              trace := trace (snd qb) @ [Discover s]\<rparr>"
    unfolding qc_def using proxy_unregistered [OF failure_on_closed(1) [of "circuitBreakers (snd qb)" s, OF kkb] unc] by simp
  have kkc: "circuitBreakers (snd qc) s =
              Some \<lparr>failures = 3, isOpen = True, lastFailure = Some fc\<rparr>"
    using failure_on_closed(2) [of "circuitBreakers (snd qb)" s, OF kkb, of fc cc] by (simp add: stc js_incr_def)
  have tr: "trace (snd qc) = trace gw @ [Discover s, Discover s, Discover s]"
    by (simp add: stc stb sta)
  have "qd = (Some \<lparr>status = 503,
                    body = JObj [(''success'', JBool False),
                                 (''message'', JStr (msg_temporarily_unavailable s))]\<rparr>, snd qc)"
    unfolding qd_def using within by (intro proxy_rejected [OF kkc]) (simp_all add: elapsed_def)
  with kka kkc tr show ?thesis by simp
qed

theorem unregistered_opens_breaker_witness:
  "circuitBreakers new_gateway ''ghost-service'' = None
   \<and> registry no_services ''ghost-service'' = None
   \<and> fst (proxyRequest no_services ''ghost-service'' ''/ghost'' sample_request 5000 5001
            (snd (proxyRequest no_services ''ghost-service'' ''/ghost'' sample_request 2000 2001
               (snd (proxyRequest no_services ''ghost-service'' ''/ghost'' sample_request 1000 1001
                  (snd (proxyRequest no_services ''ghost-service'' ''/ghost'' sample_request 0 1
                     new_gateway))))))) =
       Some \<lparr>status = 503,
             body = JObj [(''success'', JBool False),
                          (''message'', JStr (msg_temporarily_unavailable ''ghost-service''))]\<rparr>"
proof -
  have a: "circuitBreakers new_gateway ''ghost-service'' = None"
    by (simp add: new_gateway_def)
  have b: "registry no_services ''ghost-service'' = None"
    by (simp add: no_services_def)
  have c: "(5000::int) - 2001 \<le> 30000" by simp
  show ?thesis
    using a b
      unregistered_opens_breaker [OF a b b b c, where basea = "''/ghost''" and baseb = "''/ghost''"
        and basec = "''/ghost''" and based = "''/ghost''" and ra = sample_request
        and rb = sample_request and rc = sample_request and rd = sample_request
        and ca = 0 and fa = 1 and cb = 1000 and fb = 1001 and cc = 2000 and ed = no_services
        and fd = 5001]
    by simp
qed

end
